theory Spec2Isabelle
  imports Complex_Main
begin

section \<open>Data model of \<open>converter.hpp\<close>\<close>

text \<open>
  The header converts between NumPy buffers (\<open>py::array_t\<close> of doubles, read through
  \<open>py::buffer_info\<close>) and Armadillo values (\<open>arma::vec\<close>, \<open>arma::mat\<close>), and
  implements \<open>Moebius_S\<close>.

  NumPy buffers live in a store of allocated blocks. An address is the index of a block;
  a fresh block is appended at the end, so the address \<open>length h\<close> is never the address
  of a block of \<open>h\<close>. The element type is a parameter: the conversions only move
  elements, they never compute with them.
\<close>

type_synonym addr = nat

type_synonym 'a heap = "'a list list"

text \<open>
  \<open>py::buffer_info\<close> as the code reads it: the \<open>shape\<close> vector (\<open>ndim\<close> is its
  length) and \<open>ptr\<close>, the address of the first element. The buffer is contiguous and
  row-major (C order), as in the specification's data model; strides are not read by
  any function of the header.
\<close>

record pyarray =
  shape :: "nat list"
  ptr :: addr

definition ndim :: "pyarray \<Rightarrow> nat" where
  "ndim arr = length (shape arr)"

text \<open>A buffer holds as many elements as its shape says, in a block of the store.\<close>

definition wf_pyarray :: "'a heap \<Rightarrow> pyarray \<Rightarrow> bool" where
  "wf_pyarray h arr \<longleftrightarrow> ptr arr < length h \<and> length (h ! ptr arr) = prod_list (shape arr)"

text \<open>Element \<open>k\<close> of a 1D array, and element \<open>(i, j)\<close> of a row-major 2D array.\<close>

definition elem1 :: "'a heap \<Rightarrow> pyarray \<Rightarrow> nat \<Rightarrow> 'a" where
  "elem1 h arr k = h ! ptr arr ! k"

definition elem2 :: "'a heap \<Rightarrow> pyarray \<Rightarrow> nat \<Rightarrow> nat \<Rightarrow> 'a" where
  "elem2 h arr i j = h ! ptr arr ! (i * (shape arr ! 1) + j)"

text \<open>
  \<open>arma::mat\<close>: \<open>n_rows\<close>, \<open>n_cols\<close> and the memory \<open>mem\<close>, which Armadillo keeps in
  column-major order: element \<open>(i, j)\<close> is \<open>mem[i + j * n_rows]\<close>. An \<open>arma::vec\<close>
  (a column) and an \<open>arma::rowvec\<close> are the list of their elements.
\<close>

record 'a mat =
  n_rows :: nat
  n_cols :: nat
  mem :: "'a list"

definition n_elem :: "'a mat \<Rightarrow> nat" where
  "n_elem M = n_rows M * n_cols M"

definition wf_mat :: "'a mat \<Rightarrow> bool" where
  "wf_mat M \<longleftrightarrow> length (mem M) = n_rows M * n_cols M"

definition mat_at :: "'a mat \<Rightarrow> nat \<Rightarrow> nat \<Rightarrow> 'a" where
  "mat_at M i j = mem M ! (i + j * n_rows M)"

text \<open>
  The exceptions of the header: the \<open>std::runtime_error\<close> that \<open>pyarray_to_arma_vec\<close>
  throws with its message, and the \<open>std::logic_error\<close> that Armadillo throws when the
  sizes of two operands do not conform. \<open>Undefined_behaviour\<close> marks a read past the end
  of the \<open>shape\<close> vector or of a vector's memory, where C++ defines no result.
\<close>

datatype error = Runtime_error string | Logic_error | Undefined_behaviour

section \<open>Armadillo operations used by the header\<close>

text \<open>The dense matrix with \<open>n\<close> rows and \<open>d\<close> columns whose element \<open>(i, j)\<close> is \<open>f i j\<close>.\<close>

definition mat_of_fun :: "nat \<Rightarrow> nat \<Rightarrow> (nat \<Rightarrow> nat \<Rightarrow> 'a) \<Rightarrow> 'a mat" where
  "mat_of_fun n d f =
     \<lparr>n_rows = n, n_cols = d, mem = map (\<lambda>k. f (k mod n) (k div n)) [0..<n * d]\<rparr>"

text \<open>\<open>M.t()\<close>: the transpose, materialised as a matrix of its own.\<close>

definition t_mat :: "'a mat \<Rightarrow> 'a mat" where
  "t_mat M = mat_of_fun (n_cols M) (n_rows M) (\<lambda>i j. mat_at M j i)"

section \<open>The conversions\<close>

text \<open>
  \<open>pyarray_to_arma_vec\<close>: a view (no copy) of the first \<open>shape[0]\<close>, or
  \<open>shape[0] * shape[1]\<close>, elements of the buffer. No function of the header writes to
  an existing buffer, so the view is the list of the elements it reads.
\<close>

definition pyarray_to_arma_vec :: "'a heap \<Rightarrow> pyarray \<Rightarrow> error + 'a list" where
  "pyarray_to_arma_vec h arr =
     (if ndim arr = 1 then Inr (take (shape arr ! 0) (h ! ptr arr))
      else if ndim arr = 2 then
        (let len = shape arr ! 0 * shape arr ! 1 in Inr (take len (h ! ptr arr)))
      else Inl (Runtime_error ''Expected a 1D or 2D vector.''))"

text \<open>
  \<open>pyarray_to_arma_mat\<close>: the buffer read as a column-major matrix with \<open>shape[1]\<close> rows
  and \<open>shape[0]\<close> columns, then transposed. The code does not look at \<open>ndim\<close>; with
  fewer than two dimensions \<open>shape[1]\<close> is a read past the end of the shape vector.
\<close>

definition pyarray_to_arma_mat :: "'a heap \<Rightarrow> pyarray \<Rightarrow> error + 'a mat" where
  "pyarray_to_arma_mat h arr =
     (if ndim arr < 2 then Inl Undefined_behaviour
      else
        (let M = \<lparr>n_rows = shape arr ! 1, n_cols = shape arr ! 0,
                  mem = take (shape arr ! 1 * shape arr ! 0) (h ! ptr arr)\<rparr>
         in Inr (t_mat M)))"

text \<open>
  \<open>arma_vec_to_pyarray\<close>: a new 1D array of \<open>n_elem\<close> elements, filled by \<open>memcpy\<close>
  from the vector's memory. The result is the array and the store with the new block.
\<close>

definition arma_vec_to_pyarray :: "'a heap \<Rightarrow> 'a list \<Rightarrow> pyarray \<times> 'a heap" where
  "arma_vec_to_pyarray h v =
     (\<lparr>shape = [length v], ptr = length h\<rparr>, h @ [v])"

text \<open>
  \<open>arma_mat_to_pyarray\<close>: a new 2D array of shape \<open>(n_rows, n_cols)\<close>, filled by
  \<open>memcpy\<close> of \<open>n_elem\<close> elements from the matrix's memory, in the order of that memory.
\<close>

definition arma_mat_to_pyarray :: "'a heap \<Rightarrow> 'a mat \<Rightarrow> pyarray \<times> 'a heap" where
  "arma_mat_to_pyarray h M =
     (\<lparr>shape = [n_rows M, n_cols M], ptr = length h\<rparr>, h @ [take (n_elem M) (mem M)])"

section \<open>\<open>Moebius_S\<close>\<close>

text \<open>
  The element type of \<open>Moebius_S\<close> is any type with the arithmetic operations; no law of
  arithmetic is assumed of them. The literal \<open>2\<close> is \<open>1 + 1\<close>.
\<close>

definition two :: "'a::{one,plus}" where
  "two = 1 + 1"

text \<open>\<open>k * v\<close> for a scalar and a vector, \<open>k * M\<close> for a scalar and a matrix.\<close>

definition scalar_times_vec :: "'a::times \<Rightarrow> 'a list \<Rightarrow> 'a list" where
  "scalar_times_vec k v = map (\<lambda>x. k * x) v"

definition scalar_times_mat :: "'a::times \<Rightarrow> 'a mat \<Rightarrow> 'a mat" where
  "scalar_times_mat k M = M\<lparr>mem := map (\<lambda>x. k * x) (mem M)\<rparr>"

text \<open>\<open>k + v\<close> and \<open>v + k\<close> for a scalar and a vector.\<close>

definition scalar_plus_vec :: "'a::plus \<Rightarrow> 'a list \<Rightarrow> 'a list" where
  "scalar_plus_vec k v = map (\<lambda>x. k + x) v"

definition vec_plus_scalar :: "'a::plus list \<Rightarrow> 'a \<Rightarrow> 'a list" where
  "vec_plus_scalar v k = map (\<lambda>x. x + k) v"

text \<open>
  \<open>Moebius_S\<close> compares no sizes itself. Its operators are Armadillo's, and whether they
  compare sizes is a compile-time setting of the library that the header does not fix:
  the conformance checks are compiled in by default and compiled out by
  \<open>ARMA_NO_DEBUG\<close>. The setting is the parameter \<open>conform\<close> of every operator below.

  \<open>X.each_row() + r\<close> and \<open>Y.each_col() / c\<close>. With the checks, a row that has not as
  many elements as the matrix has columns (a column: as the matrix has rows) is a
  \<open>std::logic_error\<close>. Without them the loop reads the first \<open>n_cols\<close> (\<open>n_rows\<close>)
  elements of the vector: past its end when it is shorter, and ignoring the rest when it
  is longer.
\<close>

definition each_row_plus :: "bool \<Rightarrow> 'a::plus mat \<Rightarrow> 'a list \<Rightarrow> error + 'a mat" where
  "each_row_plus conform X r =
     (if conform \<and> length r \<noteq> n_cols X then Inl Logic_error
      else if length r < n_cols X then Inl Undefined_behaviour
      else Inr (mat_of_fun (n_rows X) (n_cols X) (\<lambda>i j. mat_at X i j + r ! j)))"

definition each_col_div :: "bool \<Rightarrow> 'a::inverse mat \<Rightarrow> 'a list \<Rightarrow> error + 'a mat" where
  "each_col_div conform Y c =
     (if conform \<and> length c \<noteq> n_rows Y then Inl Logic_error
      else if length c < n_rows Y then Inl Undefined_behaviour
      else Inr (mat_of_fun (n_rows Y) (n_cols Y) (\<lambda>i j. mat_at Y i j / c ! i)))"

text \<open>
  \<open>A * v\<close> for a matrix and a column vector, with the same setting. Element \<open>i\<close> of the
  product is the sum over \<open>j\<close> of \<open>A(i, j) * v(j)\<close>. The source leaves the order of the
  summation to the library; here the columns are summed in increasing order, starting
  from zero.
\<close>

definition mat_times_vec ::
  "bool \<Rightarrow> 'a::{zero,plus,times} mat \<Rightarrow> 'a list \<Rightarrow> error + 'a list" where
  "mat_times_vec conform A v =
     (if conform \<and> n_cols A \<noteq> length v then Inl Logic_error
      else if length v < n_cols A then Inl Undefined_behaviour
      else Inr (map (\<lambda>i. foldl (+) 0 (map (\<lambda>j. mat_at A i j * v ! j) [0..<n_cols A]))
                  [0..<n_rows A]))"

text \<open>
  \<open>Moebius_S\<close>, statement by statement:
  \<^verbatim>\<open>arma::mat Y = (1-rho*rho)*(X.each_row() + rho*mu.t());\<close>
  \<^verbatim>\<open>Y = Y.each_col()/(1+2*rho*X*mu+rho*rho);\<close>
  \<^verbatim>\<open>Y = Y.each_row() + rho*mu.t();\<close>
\<close>

definition Moebius_S ::
  "bool \<Rightarrow> 'a::{zero,one,plus,minus,times,inverse} mat \<Rightarrow> 'a list \<Rightarrow> 'a \<Rightarrow> error + 'a mat" where
  "Moebius_S conform X mu rho =
     (case each_row_plus conform X (scalar_times_vec rho mu) of
        Inl e \<Rightarrow> Inl e
      | Inr A \<Rightarrow>
          (let Y = scalar_times_mat (1 - rho * rho) A in
           case mat_times_vec conform (scalar_times_mat (two * rho) X) mu of
             Inl e \<Rightarrow> Inl e
           | Inr p \<Rightarrow>
               (case each_col_div conform Y
                       (vec_plus_scalar (scalar_plus_vec 1 p) (rho * rho)) of
                  Inl e \<Rightarrow> Inl e
                | Inr Y' \<Rightarrow> each_row_plus conform Y' (scalar_times_vec rho mu))))"

text \<open>
  The divisor of row \<open>i\<close> in the second statement: element \<open>i\<close> of
  \<open>1+2*rho*X*mu+rho*rho\<close>.
\<close>

definition Moebius_denom ::
  "'a::{zero,one,plus,minus,times,inverse} mat \<Rightarrow> 'a list \<Rightarrow> 'a \<Rightarrow> nat \<Rightarrow> 'a" where
  "Moebius_denom X mu rho i =
     1 + foldl (+) 0 (map (\<lambda>j. two * rho * mat_at X i j * mu ! j) [0..<n_cols X]) + rho * rho"

section \<open>Doubles with their special values\<close>

text \<open>
  The values of a \<open>double\<close> that decide what a zero divisor or an infinite operand
  gives: a finite number, plus or minus infinity, or NaN. The operations follow
  IEEE 754 on the special values: a NaN operand gives NaN, and so do \<open>\<infinity> - \<infinity>\<close>,
  \<open>0 * \<infinity>\<close>, \<open>0 / 0\<close> and \<open>\<infinity> / \<infinity>\<close>; a non-zero finite number divided by zero is an
  infinity; no operation raises. On finite operands the result is the exact one: rounding
  and overflow are left out, and zero has no sign (a zero divisor counts as \<open>+0\<close>).
\<close>

datatype ieee = Finite real | PInf | NInf | NaN

fun is_finite :: "ieee \<Rightarrow> bool" where
  "is_finite (Finite a) = True"
| "is_finite x = False"

fun ieee_uminus :: "ieee \<Rightarrow> ieee" where
  "ieee_uminus (Finite a) = Finite (- a)"
| "ieee_uminus PInf = NInf"
| "ieee_uminus NInf = PInf"
| "ieee_uminus NaN = NaN"

fun ieee_plus :: "ieee \<Rightarrow> ieee \<Rightarrow> ieee" where
  "ieee_plus NaN y = NaN"
| "ieee_plus x NaN = NaN"
| "ieee_plus (Finite a) (Finite b) = Finite (a + b)"
| "ieee_plus PInf NInf = NaN"
| "ieee_plus NInf PInf = NaN"
| "ieee_plus PInf y = PInf"
| "ieee_plus NInf y = NInf"
| "ieee_plus (Finite a) y = y"

fun ieee_times :: "ieee \<Rightarrow> ieee \<Rightarrow> ieee" where
  "ieee_times NaN y = NaN"
| "ieee_times x NaN = NaN"
| "ieee_times (Finite a) (Finite b) = Finite (a * b)"
| "ieee_times (Finite a) PInf = (if a = 0 then NaN else if 0 < a then PInf else NInf)"
| "ieee_times (Finite a) NInf = (if a = 0 then NaN else if 0 < a then NInf else PInf)"
| "ieee_times PInf (Finite b) = (if b = 0 then NaN else if 0 < b then PInf else NInf)"
| "ieee_times NInf (Finite b) = (if b = 0 then NaN else if 0 < b then NInf else PInf)"
| "ieee_times PInf PInf = PInf"
| "ieee_times PInf NInf = NInf"
| "ieee_times NInf PInf = NInf"
| "ieee_times NInf NInf = PInf"

fun ieee_divide :: "ieee \<Rightarrow> ieee \<Rightarrow> ieee" where
  "ieee_divide NaN y = NaN"
| "ieee_divide x NaN = NaN"
| "ieee_divide (Finite a) (Finite b) =
     (if b = 0 then (if a = 0 then NaN else if 0 < a then PInf else NInf)
      else Finite (a / b))"
| "ieee_divide (Finite a) y = Finite 0"
| "ieee_divide PInf (Finite b) = (if 0 \<le> b then PInf else NInf)"
| "ieee_divide NInf (Finite b) = (if 0 \<le> b then NInf else PInf)"
| "ieee_divide x y = NaN"

text \<open>The operations \<open>0\<close>, \<open>1\<close>, \<open>+\<close>, \<open>-\<close>, \<open>*\<close> and \<open>/\<close> on these values.\<close>

instantiation ieee :: "{zero,one,plus,minus,uminus,times,inverse}"
begin

definition zero_ieee :: ieee where
  "zero_ieee = Finite 0"

definition one_ieee :: ieee where
  "one_ieee = Finite 1"

definition uminus_ieee :: "ieee \<Rightarrow> ieee" where
  "uminus_ieee x = ieee_uminus x"

definition plus_ieee :: "ieee \<Rightarrow> ieee \<Rightarrow> ieee" where
  "plus_ieee x y = ieee_plus x y"

definition minus_ieee :: "ieee \<Rightarrow> ieee \<Rightarrow> ieee" where
  "minus_ieee x y = ieee_plus x (ieee_uminus y)"

definition times_ieee :: "ieee \<Rightarrow> ieee \<Rightarrow> ieee" where
  "times_ieee x y = ieee_times x y"

definition divide_ieee :: "ieee \<Rightarrow> ieee \<Rightarrow> ieee" where
  "divide_ieee x y = ieee_divide x y"

definition inverse_ieee :: "ieee \<Rightarrow> ieee" where
  "inverse_ieee x = ieee_divide (Finite 1) x"

instance ..

end

section \<open>Layout lemmas\<close>

lemma col_major_index_less:
  fixes i j n d :: nat
  assumes "i < n" and "j < d"
  shows "i + j * n < n * d"
proof -
  have "i + j * n < n + j * n" using assms(1) by simp
  also have "\<dots> = (Suc j) * n" by simp
  also have "\<dots> \<le> d * n" using assms(2) by (intro mult_le_mono1) simp
  finally show ?thesis by (simp add: mult.commute)
qed

lemma mat_of_fun_dims [simp]:
  "n_rows (mat_of_fun n d f) = n"
  "n_cols (mat_of_fun n d f) = d"
  "length (mem (mat_of_fun n d f)) = n * d"
  by (simp_all add: mat_of_fun_def)

lemma wf_mat_of_fun [simp]: "wf_mat (mat_of_fun n d f)"
  by (simp add: wf_mat_def)

lemma mat_at_mat_of_fun:
  assumes "i < n" and "j < d"
  shows "mat_at (mat_of_fun n d f) i j = f i j"
proof -
  have "i + j * n < n * d" using assms by (rule col_major_index_less)
  then show ?thesis using assms(1) by (simp add: mat_at_def mat_of_fun_def)
qed

lemma mat_at_t_mat:
  assumes "i < n_cols M" and "j < n_rows M"
  shows "mat_at (t_mat M) i j = mat_at M j i"
  using assms by (simp add: t_mat_def mat_at_mat_of_fun)

section \<open>Array to matrix\<close>

text \<open>
  C3. For a row-major 2D array of shape \<open>(n, d)\<close>, \<open>pyarray_to_arma_mat\<close> returns a
  matrix with \<open>n\<close> rows and \<open>d\<close> columns whose element \<open>(i, j)\<close> is the array's element
  \<open>(i, j)\<close>, for all \<open>i < n\<close> and \<open>j < d\<close>.
\<close>

theorem pyarray_to_arma_mat_elements:
  assumes "wf_pyarray h A" and "shape A = [n, d]"
  shows "\<exists>M. pyarray_to_arma_mat h A = Inr M \<and> n_rows M = n \<and> n_cols M = d \<and> wf_mat M \<and>
           (\<forall>i<n. \<forall>j<d. mat_at M i j = elem2 h A i j)"
proof -
  let ?V = "\<lparr>n_rows = d, n_cols = n, mem = take (d * n) (h ! ptr A)\<rparr>"
  have run: "pyarray_to_arma_mat h A = Inr (t_mat ?V)"
    using assms(2) by (simp add: pyarray_to_arma_mat_def ndim_def)
  have len: "length (h ! ptr A) = n * d"
    using assms by (simp add: wf_pyarray_def)
  have elems: "mat_at (t_mat ?V) i j = elem2 h A i j" if "i < n" and "j < d" for i j
  proof -
    have "j + i * d < d * n" using that by (intro col_major_index_less)
    then have "mat_at ?V j i = h ! ptr A ! (j + i * d)"
      by (simp add: mat_at_def)
    then show ?thesis
      using that assms(2) by (simp add: mat_at_t_mat elem2_def add.commute)
  qed
  show ?thesis
    using run elems by (simp add: t_mat_def)
qed

theorem pyarray_to_arma_mat_elements_witness:
  "wf_pyarray [[1, 2, 3, 4, 5, 6 :: real]] \<lparr>shape = [2, 3], ptr = 0\<rparr> \<and>
   (\<exists>M. pyarray_to_arma_mat [[1, 2, 3, 4, 5, 6 :: real]] \<lparr>shape = [2, 3], ptr = 0\<rparr> = Inr M \<and>
      n_rows M = 2 \<and> n_cols M = 3 \<and> wf_mat M \<and>
      (\<forall>i<2. \<forall>j<3. mat_at M i j = elem2 [[1, 2, 3, 4, 5, 6]] \<lparr>shape = [2, 3], ptr = 0\<rparr> i j))"
proof -
  have wf: "wf_pyarray [[1, 2, 3, 4, 5, 6 :: real]] \<lparr>shape = [2, 3], ptr = 0\<rparr>"
    by (simp add: wf_pyarray_def)
  have sh: "shape \<lparr>shape = [2, 3], ptr = 0\<rparr> = [2, 3]" by simp
  show ?thesis
    using wf pyarray_to_arma_mat_elements [OF wf sh] by blast
qed

section \<open>Array to vector\<close>

text \<open>
  C6. \<open>pyarray_to_arma_vec\<close> returns a vector exactly when the array has rank 1 or
  rank 2. For every other rank it throws the \<open>std::runtime_error\<close> with the message
  \<open>Expected a 1D or 2D vector.\<close> and returns no vector: the input is neither truncated
  nor reshaped.
\<close>

theorem pyarray_to_arma_vec_rank:
  "((\<exists>v. pyarray_to_arma_vec h a = Inr v) \<longleftrightarrow> ndim a = 1 \<or> ndim a = 2) \<and>
   (ndim a \<noteq> 1 \<and> ndim a \<noteq> 2 \<longrightarrow>
      pyarray_to_arma_vec h a = Inl (Runtime_error ''Expected a 1D or 2D vector.''))"
  by (simp add: pyarray_to_arma_vec_def Let_def)

theorem pyarray_to_arma_vec_rank_witness:
  "ndim \<lparr>shape = [2, 2, 2], ptr = 0\<rparr> \<noteq> 1 \<and> ndim \<lparr>shape = [2, 2, 2], ptr = 0\<rparr> \<noteq> 2 \<and>
   pyarray_to_arma_vec [[1, 2, 3, 4, 5, 6, 7, 8 :: real]] \<lparr>shape = [2, 2, 2], ptr = 0\<rparr> =
     Inl (Runtime_error ''Expected a 1D or 2D vector.'') \<and>
   ndim \<lparr>shape = [3], ptr = 0\<rparr> = 1 \<and>
   (\<exists>v. pyarray_to_arma_vec [[1, 2, 3 :: real]] \<lparr>shape = [3], ptr = 0\<rparr> = Inr v)"
proof -
  have r3: "ndim \<lparr>shape = [2, 2, 2], ptr = 0\<rparr> \<noteq> 1 \<and> ndim \<lparr>shape = [2, 2, 2], ptr = 0\<rparr> \<noteq> 2"
    by (simp add: ndim_def)
  have r1: "ndim \<lparr>shape = [3], ptr = 0\<rparr> = 1"
    by (simp add: ndim_def)
  show ?thesis
    using r3 r1
      pyarray_to_arma_vec_rank [of "[[1, 2, 3, 4, 5, 6, 7, 8 :: real]]" "\<lparr>shape = [2, 2, 2], ptr = 0\<rparr>"]
      pyarray_to_arma_vec_rank [of "[[1, 2, 3 :: real]]" "\<lparr>shape = [3], ptr = 0\<rparr>"]
    by blast
qed

text \<open>
  C7. For a 1D array \<open>a\<close> of length \<open>n\<close>, \<open>arma_vec_to_pyarray\<close> of
  \<open>pyarray_to_arma_vec a\<close> is a 1D array of length \<open>n\<close> in a block that the store did
  not hold before (its address is no address of the old store, the old blocks are
  unchanged), and its element \<open>k\<close> is element \<open>k\<close> of \<open>a\<close> for every \<open>k < n\<close>.
\<close>

theorem vector_round_trip:
  assumes "wf_pyarray h a" and "shape a = [n]"
  shows "\<exists>v r h'. pyarray_to_arma_vec h a = Inr v \<and> arma_vec_to_pyarray h v = (r, h') \<and>
           shape r = [n] \<and> wf_pyarray h' r \<and>
           \<not> ptr r < length h \<and> ptr r \<noteq> ptr a \<and> (\<forall>p<length h. h' ! p = h ! p) \<and>
           (\<forall>k<n. elem1 h' r k = elem1 h a k)"
proof -
  have len: "length (h ! ptr a) = n" and valid: "ptr a < length h"
    using assms by (simp_all add: wf_pyarray_def)
  have view: "pyarray_to_arma_vec h a = Inr (h ! ptr a)"
    using assms(2) len by (simp add: pyarray_to_arma_vec_def ndim_def)
  have copy: "arma_vec_to_pyarray h (h ! ptr a) = (\<lparr>shape = [n], ptr = length h\<rparr>, h @ [h ! ptr a])"
    using len by (simp add: arma_vec_to_pyarray_def)
  have "wf_pyarray (h @ [h ! ptr a]) \<lparr>shape = [n], ptr = length h\<rparr>"
    using len by (simp add: wf_pyarray_def)
  moreover have "\<forall>p<length h. (h @ [h ! ptr a]) ! p = h ! p"
    by (simp add: nth_append)
  moreover have "\<forall>k<n. elem1 (h @ [h ! ptr a]) \<lparr>shape = [n], ptr = length h\<rparr> k = elem1 h a k"
    by (simp add: elem1_def)
  ultimately show ?thesis
    using view copy valid by auto
qed

theorem vector_round_trip_witness:
  "wf_pyarray [[5, 7, 11 :: real]] \<lparr>shape = [3], ptr = 0\<rparr> \<and>
   (\<exists>v r h'. pyarray_to_arma_vec [[5, 7, 11 :: real]] \<lparr>shape = [3], ptr = 0\<rparr> = Inr v \<and>
      arma_vec_to_pyarray [[5, 7, 11]] v = (r, h') \<and>
      shape r = [3] \<and> wf_pyarray h' r \<and>
      \<not> ptr r < length [[5, 7, 11 :: real]] \<and> ptr r \<noteq> ptr \<lparr>shape = [3], ptr = 0\<rparr> \<and>
      (\<forall>p<length [[5, 7, 11 :: real]]. h' ! p = [[5, 7, 11]] ! p) \<and>
      (\<forall>k<3. elem1 h' r k = elem1 [[5, 7, 11]] \<lparr>shape = [3], ptr = 0\<rparr> k))"
proof -
  have wf: "wf_pyarray [[5, 7, 11 :: real]] \<lparr>shape = [3], ptr = 0\<rparr>"
    by (simp add: wf_pyarray_def)
  have sh: "shape \<lparr>shape = [3], ptr = 0\<rparr> = [3]" by simp
  show ?thesis
    using wf vector_round_trip [OF wf sh] by blast
qed

text \<open>
  C10. For a contiguous row-major 2D array \<open>A\<close> of shape \<open>(r, c)\<close>,
  \<open>arma_vec_to_pyarray\<close> of \<open>pyarray_to_arma_vec A\<close> is a 1D array of length \<open>r * c\<close>
  whose element \<open>k\<close> is \<open>A(k div c, k mod c)\<close>: the row-major flattening of \<open>A\<close>.
\<close>

theorem matrix_through_vector_flattens:
  assumes "wf_pyarray h A" and "shape A = [r, c]"
  shows "\<exists>v R h'. pyarray_to_arma_vec h A = Inr v \<and> arma_vec_to_pyarray h v = (R, h') \<and>
           shape R = [r * c] \<and> wf_pyarray h' R \<and>
           (\<forall>k<r * c. elem1 h' R k = elem2 h A (k div c) (k mod c))"
proof -
  have len: "length (h ! ptr A) = r * c"
    using assms by (simp add: wf_pyarray_def)
  have view: "pyarray_to_arma_vec h A = Inr (h ! ptr A)"
    using assms(2) len by (simp add: pyarray_to_arma_vec_def ndim_def)
  have copy: "arma_vec_to_pyarray h (h ! ptr A) = (\<lparr>shape = [r * c], ptr = length h\<rparr>, h @ [h ! ptr A])"
    using len by (simp add: arma_vec_to_pyarray_def)
  have "wf_pyarray (h @ [h ! ptr A]) \<lparr>shape = [r * c], ptr = length h\<rparr>"
    using len by (simp add: wf_pyarray_def)
  moreover have "\<forall>k<r * c. elem1 (h @ [h ! ptr A]) \<lparr>shape = [r * c], ptr = length h\<rparr> k
      = elem2 h A (k div c) (k mod c)"
    using assms(2) by (simp add: elem1_def elem2_def)
  ultimately show ?thesis
    using view copy by auto
qed

theorem matrix_through_vector_flattens_witness:
  "wf_pyarray [[1, 2, 3, 4, 5, 6 :: real]] \<lparr>shape = [2, 3], ptr = 0\<rparr> \<and>
   (\<exists>v R h'. pyarray_to_arma_vec [[1, 2, 3, 4, 5, 6 :: real]] \<lparr>shape = [2, 3], ptr = 0\<rparr> = Inr v \<and>
      arma_vec_to_pyarray [[1, 2, 3, 4, 5, 6]] v = (R, h') \<and>
      shape R = [2 * 3] \<and> wf_pyarray h' R \<and>
      (\<forall>k<2 * 3. elem1 h' R k =
         elem2 [[1, 2, 3, 4, 5, 6]] \<lparr>shape = [2, 3], ptr = 0\<rparr> (k div 3) (k mod 3)))"
proof -
  have wf: "wf_pyarray [[1, 2, 3, 4, 5, 6 :: real]] \<lparr>shape = [2, 3], ptr = 0\<rparr>"
    by (simp add: wf_pyarray_def)
  have sh: "shape \<lparr>shape = [2, 3], ptr = 0\<rparr> = [2, 3]" by simp
  show ?thesis
    using wf matrix_through_vector_flattens [OF wf sh] by blast
qed

section \<open>Matrix to array\<close>

lemma arma_mat_to_pyarray_buffer:
  assumes "wf_mat M"
  shows "arma_mat_to_pyarray h M = (\<lparr>shape = [n_rows M, n_cols M], ptr = length h\<rparr>, h @ [mem M])"
  using assms by (simp add: arma_mat_to_pyarray_def n_elem_def wf_mat_def)

text \<open>
  What \<open>arma_mat_to_pyarray\<close> does: the new row-major array holds the matrix's memory
  in its column-major order, so its element \<open>(i, j)\<close> is \<open>mem[i * n_cols + j]\<close>, where
  the matrix's element \<open>(i, j)\<close> is \<open>mem[i + j * n_rows]\<close>.
\<close>

lemma arma_mat_to_pyarray_elements:
  assumes "wf_mat M" and "arma_mat_to_pyarray h M = (R, h')" and "i < n_rows M" and "j < n_cols M"
  shows "elem2 h' R i j = mem M ! (i * n_cols M + j)"
  using assms by (auto simp add: arma_mat_to_pyarray_buffer elem2_def)

text \<open>
  Hence the array that comes back from \<open>pyarray_to_arma_mat\<close> followed by
  \<open>arma_mat_to_pyarray\<close> has at \<open>(i, j)\<close> the element of the input at
  \<open>(k mod n, k div n)\<close>, where \<open>k = i * d + j\<close>.
\<close>

lemma matrix_round_trip_elements:
  assumes "wf_pyarray h A" and "shape A = [n, d]"
    and "pyarray_to_arma_mat h A = Inr M" and "arma_mat_to_pyarray h M = (R, h')"
    and "i < n" and "j < d"
  shows "elem2 h' R i j = elem2 h A ((i * d + j) mod n) ((i * d + j) div n)"
proof -
  let ?V = "\<lparr>n_rows = d, n_cols = n, mem = take (d * n) (h ! ptr A)\<rparr>"
  let ?k = "i * d + j"
  have M: "M = t_mat ?V"
    using assms(2,3) by (simp add: pyarray_to_arma_mat_def ndim_def)
  have len: "length (h ! ptr A) = n * d"
    using assms(1,2) by (simp add: wf_pyarray_def)
  have k: "?k < n * d"
    using col_major_index_less [OF assms(6,5)] by (simp add: ac_simps)
  have r: "?k mod n < n" using assms(5) by simp
  have c: "?k div n < d"
    using k assms(5) by (simp add: less_mult_imp_div_less mult.commute)
  have wfM: "wf_mat M" and dims: "n_rows M = n" "n_cols M = d"
    by (simp_all add: M t_mat_def)
  have "elem2 h' R i j = mem M ! (i * n_cols M + j)"
    using wfM assms(4) by (rule arma_mat_to_pyarray_elements) (simp_all add: dims assms(5,6))
  then have "elem2 h' R i j = mem M ! ?k"
    by (simp add: dims)
  also have "\<dots> = mat_at ?V (?k div n) (?k mod n)"
    using k by (simp add: M t_mat_def mat_of_fun_def)
  also have "\<dots> = h ! ptr A ! (?k div n + ?k mod n * d)"
    using col_major_index_less [OF c r] by (simp add: mat_at_def)
  also have "\<dots> = elem2 h A (?k mod n) (?k div n)"
    using assms(2) by (simp add: elem2_def add.commute)
  finally show ?thesis .
qed

text \<open>
  C2 at the matrix with rows \<open>(1, 2)\<close> and \<open>(3, 4)\<close>, whose memory is \<open>1, 3, 2, 4\<close>:
  the matrix's element \<open>(0, 1)\<close> is 2; the array that \<open>arma_mat_to_pyarray\<close> returns
  has shape \<open>(2, 2)\<close> and the buffer \<open>1, 3, 2, 4\<close>, so its element \<open>(0, 1)\<close> is 3.
\<close>

theorem arma_mat_to_pyarray_keeps_column_major:
  "wf_mat \<lparr>n_rows = 2, n_cols = 2, mem = [1, 3, 2, 4 :: real]\<rparr> \<and>
   mat_at \<lparr>n_rows = 2, n_cols = 2, mem = [1, 3, 2, 4 :: real]\<rparr> 0 1 = 2 \<and>
   arma_mat_to_pyarray [] \<lparr>n_rows = 2, n_cols = 2, mem = [1, 3, 2, 4 :: real]\<rparr> =
     (\<lparr>shape = [2, 2], ptr = 0\<rparr>, [[1, 3, 2, 4]]) \<and>
   elem2 [[1, 3, 2, 4 :: real]] \<lparr>shape = [2, 2], ptr = 0\<rparr> 0 1 = 3"
  by (simp add: wf_mat_def mat_at_def arma_mat_to_pyarray_def n_elem_def elem2_def)

text \<open>
  C1 at the array with rows \<open>(1, 2, 3)\<close> and \<open>(4, 5, 6)\<close>: \<open>pyarray_to_arma_mat\<close>
  returns the matrix with these rows, whose memory is \<open>1, 4, 2, 5, 3, 6\<close>;
  \<open>arma_mat_to_pyarray\<close> returns an array of shape \<open>(2, 3)\<close> with that buffer, whose
  rows are \<open>(1, 4, 2)\<close> and \<open>(5, 3, 6)\<close>. Element \<open>(0, 1)\<close> was 2 and is 4.
\<close>

theorem matrix_round_trip_reorders:
  "wf_pyarray [[1, 2, 3, 4, 5, 6 :: real]] \<lparr>shape = [2, 3], ptr = 0\<rparr> \<and>
   pyarray_to_arma_mat [[1, 2, 3, 4, 5, 6 :: real]] \<lparr>shape = [2, 3], ptr = 0\<rparr> =
     Inr \<lparr>n_rows = 2, n_cols = 3, mem = [1, 4, 2, 5, 3, 6]\<rparr> \<and>
   arma_mat_to_pyarray [[1, 2, 3, 4, 5, 6 :: real]] \<lparr>n_rows = 2, n_cols = 3, mem = [1, 4, 2, 5, 3, 6]\<rparr> =
     (\<lparr>shape = [2, 3], ptr = 1\<rparr>, [[1, 2, 3, 4, 5, 6], [1, 4, 2, 5, 3, 6]]) \<and>
   elem2 [[1, 2, 3, 4, 5, 6 :: real]] \<lparr>shape = [2, 3], ptr = 0\<rparr> 0 1 = 2 \<and>
   elem2 [[1, 2, 3, 4, 5, 6 :: real], [1, 4, 2, 5, 3, 6]] \<lparr>shape = [2, 3], ptr = 1\<rparr> 0 1 = 4"
  by (simp add: wf_pyarray_def pyarray_to_arma_mat_def ndim_def t_mat_def mat_of_fun_def
      mat_at_def arma_mat_to_pyarray_def n_elem_def elem2_def upt_rec)

section \<open>\<open>Moebius_S\<close>: sizes and results\<close>

lemma scalar_times_mat_dims [simp]:
  "n_rows (scalar_times_mat k M) = n_rows M"
  "n_cols (scalar_times_mat k M) = n_cols M"
  "length (mem (scalar_times_mat k M)) = length (mem M)"
  by (simp_all add: scalar_times_mat_def)

lemma mat_at_scalar_times_mat:
  assumes "wf_mat M" and "i < n_rows M" and "j < n_cols M"
  shows "mat_at (scalar_times_mat k M) i j = k * mat_at M i j"
proof -
  have "i + j * n_rows M < length (mem M)"
    using assms by (simp add: wf_mat_def col_major_index_less)
  then show ?thesis by (simp add: mat_at_def scalar_times_mat_def)
qed

lemma wf_scalar_times_mat [simp]: "wf_mat (scalar_times_mat k M) = wf_mat M"
  by (simp add: wf_mat_def)

lemma nth_scalar_times_vec:
  "j < length v \<Longrightarrow> scalar_times_vec k v ! j = k * v ! j"
  by (simp add: scalar_times_vec_def)

text \<open>With conforming sizes the setting of the checks makes no difference.\<close>

lemma Moebius_S_conform:
  fixes X :: "'a::{zero,one,plus,minus,times,inverse} mat"
  assumes "length mu = n_cols X"
  shows "Moebius_S conform X mu rho =
     Inr (mat_of_fun (n_rows X) (n_cols X) (\<lambda>i j.
        mat_at (mat_of_fun (n_rows X) (n_cols X) (\<lambda>i j.
           mat_at (scalar_times_mat (1 - rho * rho)
              (mat_of_fun (n_rows X) (n_cols X) (\<lambda>i j. mat_at X i j + scalar_times_vec rho mu ! j))) i j
           / vec_plus_scalar (scalar_plus_vec 1
               (map (\<lambda>i. foldl (+) 0 (map (\<lambda>j. mat_at (scalar_times_mat (two * rho) X) i j * mu ! j)
                  [0..<n_cols X])) [0..<n_rows X])) (rho * rho) ! i)) i j
        + scalar_times_vec rho mu ! j))"
  using assms
  by (simp add: Moebius_S_def each_row_plus_def each_col_div_def mat_times_vec_def
      scalar_times_vec_def vec_plus_scalar_def scalar_plus_vec_def Let_def)

text \<open>
  With conforming sizes \<open>Moebius_S\<close> returns a matrix of the shape of \<open>X\<close>; its element
  \<open>(i, j)\<close> is the quotient by the divisor of row \<open>i\<close>, whatever that divisor is.
\<close>

lemma Moebius_S_entries:
  fixes X :: "'a::{zero,one,plus,minus,times,inverse} mat"
  assumes "wf_mat X" and "length mu = n_cols X"
  shows "\<exists>Y. Moebius_S conform X mu rho = Inr Y \<and> n_rows Y = n_rows X \<and>
           n_cols Y = n_cols X \<and> wf_mat Y \<and>
           (\<forall>i<n_rows X. \<forall>j<n_cols X. mat_at Y i j =
              (1 - rho * rho) * (mat_at X i j + rho * mu ! j) / Moebius_denom X mu rho i
              + rho * mu ! j)"
proof -
  let ?n = "n_rows X" and ?d = "n_cols X"
  have den: "vec_plus_scalar (scalar_plus_vec 1
               (map (\<lambda>i. foldl (+) 0 (map (\<lambda>j. mat_at (scalar_times_mat (two * rho) X) i j * mu ! j)
                  [0..<?d])) [0..<?n])) (rho * rho) ! i = Moebius_denom X mu rho i"
    if "i < ?n" for i
  proof -
    have eq: "map (\<lambda>j. mat_at (scalar_times_mat (two * rho) X) i j * mu ! j) [0..<?d]
        = map (\<lambda>j. two * rho * mat_at X i j * mu ! j) [0..<?d]"
      using that assms(1) by (simp add: mat_at_scalar_times_mat)
    show ?thesis
      using that by (simp add: vec_plus_scalar_def scalar_plus_vec_def Moebius_denom_def eq)
  qed
  have num: "mat_at (scalar_times_mat (1 - rho * rho)
              (mat_of_fun ?n ?d (\<lambda>i j. mat_at X i j + scalar_times_vec rho mu ! j))) i j
            = (1 - rho * rho) * (mat_at X i j + rho * mu ! j)"
    if "i < ?n" and "j < ?d" for i j
    using that assms(2)
    by (simp add: mat_at_scalar_times_mat mat_at_mat_of_fun nth_scalar_times_vec)
  show ?thesis
    using assms(2)
    by (simp add: Moebius_S_conform [OF assms(2)] mat_at_mat_of_fun den num nth_scalar_times_vec)
qed

lemma mat_eqI:
  fixes A B :: "'a mat"
  assumes "wf_mat A" and "wf_mat B" and "n_rows A = n_rows B" and "n_cols A = n_cols B"
    and "\<And>i j. i < n_rows A \<Longrightarrow> j < n_cols A \<Longrightarrow> mat_at A i j = mat_at B i j"
  shows "A = B"
proof -
  have "mem A = mem B"
  proof (rule nth_equalityI)
    show "length (mem A) = length (mem B)"
      using assms(1-4) by (simp add: wf_mat_def)
  next
    fix k assume "k < length (mem A)"
    then have k: "k < n_rows A * n_cols A" using assms(1) by (simp add: wf_mat_def)
    then have pos: "0 < n_rows A" by (cases "n_rows A") simp_all
    have r: "k mod n_rows A < n_rows A" using pos by simp
    have c: "k div n_rows A < n_cols A"
      using k pos by (simp add: less_mult_imp_div_less mult.commute)
    have "mat_at A (k mod n_rows A) (k div n_rows A) = mat_at B (k mod n_rows A) (k div n_rows A)"
      using r c by (rule assms(5))
    then show "mem A ! k = mem B ! k"
      using assms(3) by (simp add: mat_at_def)
  qed
  then show ?thesis
    using assms(3,4) by simp
qed


section \<open>Arithmetic of the special values\<close>

lemmas ieee_arith =
  zero_ieee_def one_ieee_def uminus_ieee_def plus_ieee_def minus_ieee_def times_ieee_def
  divide_ieee_def inverse_ieee_def two_def


lemma NaN_plus: "NaN + y = NaN"
  by (simp add: ieee_arith)

lemma zero_times_cases: "Finite 0 * v = Finite 0 \<or> Finite 0 * v = NaN"
  by (cases v) (simp_all add: ieee_arith)

lemma zero_or_NaN_div_zero:
  assumes "w = Finite 0 \<or> w = NaN"
  shows "w / Finite 0 = NaN"
  using assms by (auto simp add: ieee_arith)

lemma one_minus_square_minus_one: "1 - (- 1) * (- 1) = (Finite 0 :: ieee)"
  by (simp add: ieee_arith)



section \<open>\<open>Moebius_S\<close>: sizes that do not conform\<close>




section \<open>\<open>Moebius_S\<close> on doubles with their special values\<close>

text \<open>
  C9. For a matrix \<open>X\<close> of shape \<open>(n, d)\<close> and a vector \<open>mu\<close> of length \<open>d\<close>,
  \<open>Moebius_S X mu (-1)\<close> returns a matrix of shape \<open>(n, d)\<close> and no error, whatever
  the setting of the checks. A zero divisor raises nothing: every element of a row whose
  divisor is zero is NaN, a non-finite value.
\<close>

theorem Moebius_S_minus_one_returns:
  fixes X :: "ieee mat"
  assumes "wf_mat X" and "length mu = n_cols X"
  shows "\<exists>Y. Moebius_S conform X mu (- 1) = Inr Y \<and> n_rows Y = n_rows X \<and>
           n_cols Y = n_cols X \<and> wf_mat Y \<and>
           (\<forall>i<n_rows X. Moebius_denom X mu (- 1) i = 0 \<longrightarrow>
              (\<forall>j<n_cols X. mat_at Y i j = NaN \<and> \<not> is_finite (mat_at Y i j)))"
proof -
  obtain Y where Y: "Moebius_S conform X mu (- 1) = Inr Y" "n_rows Y = n_rows X"
      "n_cols Y = n_cols X" "wf_mat Y"
    and el: "\<forall>i<n_rows X. \<forall>j<n_cols X. mat_at Y i j =
              (1 - (- 1) * (- 1)) * (mat_at X i j + (- 1) * mu ! j) / Moebius_denom X mu (- 1) i
              + (- 1) * mu ! j"
    using Moebius_S_entries [OF assms, of conform "- 1"] by blast
  have "mat_at Y i j = NaN" if "i < n_rows X" and "j < n_cols X"
    and z: "Moebius_denom X mu (- 1) i = 0" for i j
  proof -
    let ?v = "mat_at X i j + (- 1) * mu ! j"
    have "Finite 0 * ?v / Finite 0 = NaN"
      using zero_times_cases [of ?v] by (rule zero_or_NaN_div_zero)
    then show ?thesis
      using el that(1,2)
      by (simp add: z one_minus_square_minus_one NaN_plus) (simp add: zero_ieee_def NaN_plus)
  qed
  then show ?thesis
    using Y by auto
qed

theorem Moebius_S_minus_one_returns_witness:
  "wf_mat \<lparr>n_rows = 2, n_cols = 2, mem = [Finite 1, Finite 0, Finite 0, Finite 1]\<rparr> \<and>
   length [Finite 1, Finite 0] =
     n_cols \<lparr>n_rows = 2, n_cols = 2, mem = [Finite 1, Finite 0, Finite 0, Finite 1]\<rparr> \<and>
   Moebius_denom \<lparr>n_rows = 2, n_cols = 2, mem = [Finite 1, Finite 0, Finite 0, Finite 1]\<rparr>
     [Finite 1, Finite 0] (- 1) 0 = 0 \<and>
   Moebius_S True \<lparr>n_rows = 2, n_cols = 2, mem = [Finite 1, Finite 0, Finite 0, Finite 1]\<rparr>
     [Finite 1, Finite 0] (- 1) =
     Inr \<lparr>n_rows = 2, n_cols = 2, mem = [NaN, Finite (- 1), NaN, Finite 0]\<rparr> \<and>
   (\<exists>Y. Moebius_S True \<lparr>n_rows = 2, n_cols = 2, mem = [Finite 1, Finite 0, Finite 0, Finite 1]\<rparr>
          [Finite 1, Finite 0] (- 1) = Inr Y \<and>
        n_rows Y = 2 \<and> n_cols Y = 2 \<and> wf_mat Y \<and>
        (\<forall>j<2. mat_at Y 0 j = NaN \<and> \<not> is_finite (mat_at Y 0 j)))"
proof -
  let ?X = "\<lparr>n_rows = 2, n_cols = 2, mem = [Finite 1, Finite 0, Finite 0, Finite 1]\<rparr>"
  let ?mu = "[Finite 1, Finite 0]"
  have wf: "wf_mat ?X" by (simp add: wf_mat_def)
  have len: "length ?mu = n_cols ?X" by simp
  have den: "Moebius_denom ?X ?mu (- 1) 0 = 0"
    by (simp add: Moebius_denom_def mat_at_def upt_rec ieee_arith)
  have run: "Moebius_S True ?X ?mu (- 1) =
      Inr \<lparr>n_rows = 2, n_cols = 2, mem = [NaN, Finite (- 1), NaN, Finite 0]\<rparr>"
    by (simp add: Moebius_S_def each_row_plus_def each_col_div_def mat_times_vec_def
        scalar_times_vec_def scalar_times_mat_def vec_plus_scalar_def scalar_plus_vec_def
        mat_of_fun_def mat_at_def Let_def upt_rec ieee_arith)
  show ?thesis
    using wf len den run Moebius_S_minus_one_returns [OF wf len, of True] by auto
qed




section \<open>\<open>Moebius_S\<close> in exact arithmetic\<close>

text \<open>
  The lemmas of this section hold where the arithmetic is that of a field (the rationals,
  the reals): sums and products are exact, commute and distribute. They say nothing about
  rounding arithmetic.
\<close>

lemma foldl_plus_sum_list:
  fixes a :: "'a::monoid_add"
  shows "foldl (+) a xs = a + sum_list xs"
  by (induction xs arbitrary: a) (simp_all add: add.assoc)

lemma Moebius_denom_exact:
  fixes X :: "'a::field mat"
  shows "Moebius_denom X mu rho i =
           1 + 2 * rho * (\<Sum>k<n_cols X. mat_at X i k * mu ! k) + rho ^ 2"
proof -
  have "foldl (+) 0 (map (\<lambda>j. two * rho * mat_at X i j * mu ! j) [0..<n_cols X])
      = (\<Sum>k<n_cols X. 2 * rho * (mat_at X i k * mu ! k))"
    by (simp add: foldl_plus_sum_list interv_sum_list_conv_sum_set_nat two_def
        atLeast0LessThan mult.assoc)
  then show ?thesis
    by (simp add: Moebius_denom_def sum_distrib_left power2_eq_square)
qed

text \<open>
  In a field, row \<open>i\<close> of the result is
  \<open>rho*mu + (1 - rho\<^sup>2) * (x\<^sub>i + rho*mu) / (1 + 2*rho*(x\<^sub>i \<cdot> mu) + rho\<^sup>2)\<close>.
\<close>

lemma Moebius_S_exact_formula:
  fixes X :: "'a::field mat"
  assumes "wf_mat X" and "length mu = n_cols X"
  shows "\<exists>Y. Moebius_S conform X mu rho = Inr Y \<and> n_rows Y = n_rows X \<and>
           n_cols Y = n_cols X \<and>
           (\<forall>i<n_rows X. \<forall>j<n_cols X. mat_at Y i j =
              rho * mu ! j + (1 - rho ^ 2) * (mat_at X i j + rho * mu ! j)
                / (1 + 2 * rho * (\<Sum>k<n_cols X. mat_at X i k * mu ! k) + rho ^ 2))"
  using Moebius_S_entries [OF assms, of conform rho]
  by (auto simp add: Moebius_denom_exact power2_eq_square add.commute)

text \<open>In a field, \<open>Moebius_S X mu 0\<close> is \<open>X\<close>.\<close>

lemma Moebius_S_exact_rho_zero:
  fixes X :: "'a::field mat"
  assumes "wf_mat X" and "length mu = n_cols X"
  shows "Moebius_S conform X mu 0 = Inr X"
proof -
  obtain Y where Y: "Moebius_S conform X mu 0 = Inr Y" "n_rows Y = n_rows X"
      "n_cols Y = n_cols X" "wf_mat Y"
    and el: "\<forall>i<n_rows X. \<forall>j<n_cols X. mat_at Y i j =
              (1 - 0 * 0) * (mat_at X i j + 0 * mu ! j) / Moebius_denom X mu 0 i + 0 * mu ! j"
    using Moebius_S_entries [OF assms, of conform 0] by blast
  have "Y = X"
  proof (rule mat_eqI)
    fix i j assume "i < n_rows Y" and "j < n_cols Y"
    then show "mat_at Y i j = mat_at X i j"
      using el Y(2,3) by (simp add: Moebius_denom_exact)
  qed (use Y assms(1) in simp_all)
  then show ?thesis using Y(1) by simp
qed

end
